theory Spec2Isabelle
  imports Main
begin

section \<open>The note store of convex/notes.ts\<close>

text \<open>
  The backend is a set of Convex queries and mutations over three tables: \<open>users\<close>
  (declared by the authentication library), \<open>notes\<close> and \<open>noteShares\<close>
  (declared in convex/schema.ts). A table is the list of its documents in creation
  order. Document identifiers are opaque non-empty strings handed out by the store; here
  they are natural numbers drawn from a counter kept in the database state, so that
  \<open>!userId\<close> is exactly the test for an absent identity.
\<close>

subsection \<open>Documents\<close>

type_synonym uid = nat
type_synonym nid = nat
type_synonym sid = nat

datatype permission = Read | Write

text \<open>Of the fields of a user document the handlers read only \<open>name\<close> and \<open>email\<close>,
  both optional.\<close>

record user_doc =
  u_id :: uid
  name :: "string option"
  email :: "string option"

record note_doc =
  n_id :: nid
  title :: string
  content :: string
  isPublic :: bool
  authorId :: uid
  lastEditedBy :: "uid option"
  lastEditedAt :: nat

record share_doc =
  s_id :: sid
  noteId :: nid
  sharedWithId :: uid
  permission :: permission
  sharedBy :: uid

record db =
  tbl_users :: "user_doc list"
  tbl_notes :: "note_doc list"
  tbl_noteShares :: "share_doc list"
  next_id :: nat

text \<open>The objects the queries return: a note document spread into a new object with
  derived fields added.\<close>

record note_with_author = note_doc +
  authorName :: string

record note_with_access = note_with_author +
  canEdit :: bool

record note_with_share = note_with_author +
  share_permission :: permission

definition with_author :: "note_doc \<Rightarrow> string \<Rightarrow> note_with_author" where
  "with_author n a = note_doc.extend n (note_with_author.fields a)"

definition with_access :: "note_doc \<Rightarrow> string \<Rightarrow> bool \<Rightarrow> note_with_access" where
  "with_access n a c = note_with_author.extend (with_author n a) (note_with_access.fields c)"

definition with_share :: "note_doc \<Rightarrow> string \<Rightarrow> permission \<Rightarrow> note_with_share" where
  "with_share n a p = note_with_author.extend (with_author n a) (note_with_share.fields p)"

subsection \<open>Errors\<close>

text \<open>Every handler throws a plain \<open>Error\<close>; the constructors are its messages.
  \<open>Not_unique\<close> is what the store's \<open>unique()\<close> throws on more than one match.\<close>

datatype error =
    Not_authenticated
  | Note_not_found
  | Not_authorized_to_edit
  | Not_authorized_to_delete
  | Not_authorized_to_share
  | User_not_found
  | Cannot_share_with_yourself
  | Not_unique

subsection \<open>Store primitives\<close>

definition get_user :: "db \<Rightarrow> uid \<Rightarrow> user_doc option" where
  "get_user d i = find (\<lambda>u. u_id u = i) (tbl_users d)"

definition get_note :: "db \<Rightarrow> nid \<Rightarrow> note_doc option" where
  "get_note d i = find (\<lambda>n. n_id n = i) (tbl_notes d)"

fun unique :: "'a list \<Rightarrow> error + 'a option" where
  "unique [] = Inr None"
| "unique [x] = Inr (Some x)"
| "unique (x # y # zs) = Inl Not_unique"

text \<open>The index lookups used by the handlers. The store's \<open>patch\<close> and \<open>delete\<close> throw
  on an identifier that names no document; the handlers call them only on documents they
  have just read in the same transaction, so that case is not a branch of the model.\<close>

definition by_note_and_user :: "db \<Rightarrow> nid \<Rightarrow> uid \<Rightarrow> share_doc list" where
  "by_note_and_user d n u = filter (\<lambda>s. noteId s = n \<and> sharedWithId s = u) (tbl_noteShares d)"

definition by_note :: "db \<Rightarrow> nid \<Rightarrow> share_doc list" where
  "by_note d n = filter (\<lambda>s. noteId s = n) (tbl_noteShares d)"

definition by_user :: "db \<Rightarrow> uid \<Rightarrow> share_doc list" where
  "by_user d u = filter (\<lambda>s. sharedWithId s = u) (tbl_noteShares d)"

definition by_email :: "db \<Rightarrow> string \<Rightarrow> user_doc list" where
  "by_email d e = filter (\<lambda>u. email u = Some e) (tbl_users d)"

definition patch_note :: "nid \<Rightarrow> (note_doc \<Rightarrow> note_doc) \<Rightarrow> db \<Rightarrow> db" where
  "patch_note i f d = d\<lparr>tbl_notes := map (\<lambda>n. if n_id n = i then f n else n) (tbl_notes d)\<rparr>"

definition patch_share :: "sid \<Rightarrow> (share_doc \<Rightarrow> share_doc) \<Rightarrow> db \<Rightarrow> db" where
  "patch_share i f d =
     d\<lparr>tbl_noteShares := map (\<lambda>s. if s_id s = i then f s else s) (tbl_noteShares d)\<rparr>"

definition insert_note :: "note_doc \<Rightarrow> db \<Rightarrow> nid \<times> db" where
  "insert_note n d =
     (next_id d, d\<lparr>tbl_notes := tbl_notes d @ [n\<lparr>n_id := next_id d\<rparr>], next_id := Suc (next_id d)\<rparr>)"

definition insert_share :: "share_doc \<Rightarrow> db \<Rightarrow> sid \<times> db" where
  "insert_share s d =
     (next_id d,
      d\<lparr>tbl_noteShares := tbl_noteShares d @ [s\<lparr>s_id := next_id d\<rparr>], next_id := Suc (next_id d)\<rparr>)"

definition delete_note :: "nid \<Rightarrow> db \<Rightarrow> db" where
  "delete_note i d = d\<lparr>tbl_notes := filter (\<lambda>n. n_id n \<noteq> i) (tbl_notes d)\<rparr>"

definition delete_share :: "sid \<Rightarrow> db \<Rightarrow> db" where
  "delete_share i d = d\<lparr>tbl_noteShares := filter (\<lambda>s. s_id s \<noteq> i) (tbl_noteShares d)\<rparr>"

subsection \<open>Display names\<close>

text \<open>\<open>author?.name || author?.email || dflt\<close>: an absent author, an absent field and
  the empty string are all falsy.\<close>

definition display_name :: "user_doc option \<Rightarrow> string \<Rightarrow> string" where
  "display_name author dflt =
     (case author of
        None \<Rightarrow> dflt
      | Some a \<Rightarrow>
          (case name a of
             Some nm \<Rightarrow>
               (if nm \<noteq> [] then nm
                else (case email a of Some em \<Rightarrow> (if em \<noteq> [] then em else dflt) | None \<Rightarrow> dflt))
           | None \<Rightarrow> (case email a of Some em \<Rightarrow> (if em \<noteq> [] then em else dflt) | None \<Rightarrow> dflt)))"

subsection \<open>getNote\<close>

definition getNote :: "uid option \<Rightarrow> nid \<Rightarrow> db \<Rightarrow> error + note_with_access option" where
  "getNote auth nId d =
     (case get_note d nId of
        None \<Rightarrow> Inr None
      | Some n \<Rightarrow>
          if isPublic n then
            Inr (Some (with_access n (display_name (get_user d (authorId n)) ''Anonymous'')
                         (auth = Some (authorId n))))
          else
            (case auth of
               None \<Rightarrow> Inr None
             | Some userId \<Rightarrow>
                 if authorId n = userId then Inr (Some (with_access n ''You'' True))
                 else
                   (case unique (by_note_and_user d nId userId) of
                      Inl e \<Rightarrow> Inl e
                    | Inr None \<Rightarrow> Inr None
                    | Inr (Some share) \<Rightarrow>
                        Inr (Some (with_access n
                                     (display_name (get_user d (authorId n)) ''Unknown'')
                                     (permission share = Write))))))"

subsection \<open>getSharedNotes\<close>

definition getSharedNotes :: "uid option \<Rightarrow> db \<Rightarrow> note_with_share list" where
  "getSharedNotes auth d =
     (case auth of
        None \<Rightarrow> []
      | Some userId \<Rightarrow>
          List.map_filter
            (\<lambda>share.
               case get_note d (noteId share) of
                 None \<Rightarrow> None
               | Some n \<Rightarrow>
                   Some (with_share n (display_name (get_user d (authorId n)) ''Unknown'')
                           (permission share)))
            (by_user d userId))"

subsection \<open>Mutations\<close>

text \<open>A mutation takes the caller's identity (\<open>getAuthUserId\<close>), the clock reading of
  \<open>Date.now()\<close> where the handler takes one, its arguments and the database, and returns
  what the handler returns or throws together with the database as the handler left it.
  The \<open>n_id\<close> and \<open>s_id\<close> of a document passed to an insert are placeholders: the
  store assigns the identifier.\<close>

definition createNote ::
    "uid option \<Rightarrow> nat \<Rightarrow> string \<Rightarrow> string option \<Rightarrow> bool option \<Rightarrow> db \<Rightarrow> (error + nid) \<times> db" where
  "createNote auth now a_title a_content a_isPublic d =
     (case auth of
        None \<Rightarrow> (Inl Not_authenticated, d)
      | Some userId \<Rightarrow>
          (case insert_note
                  \<lparr>n_id = 0,
                   title = a_title,
                   content = (case a_content of None \<Rightarrow> [] | Some c \<Rightarrow> if c \<noteq> [] then c else []),
                   isPublic = (case a_isPublic of None \<Rightarrow> True | Some b \<Rightarrow> b),
                   authorId = userId,
                   lastEditedBy = None,
                   lastEditedAt = now\<rparr> d of
             (newId, d') \<Rightarrow> (Inr newId, d')))"

text \<open>The \<open>updates\<close> object of \<open>updateNote\<close>, as the function the patch applies to the
  stored document.\<close>

definition updates ::
    "uid \<Rightarrow> nat \<Rightarrow> string option \<Rightarrow> string option \<Rightarrow> bool option \<Rightarrow> note_doc \<Rightarrow> note_doc \<Rightarrow> note_doc" where
  "updates userId now a_title a_content a_isPublic n stored =
     (let u1 = stored\<lparr>lastEditedBy := Some userId, lastEditedAt := now\<rparr>;
          u2 = (case a_title of None \<Rightarrow> u1 | Some t \<Rightarrow> u1\<lparr>title := t\<rparr>);
          u3 = (case a_content of None \<Rightarrow> u2 | Some c \<Rightarrow> u2\<lparr>content := c\<rparr>)
      in (case a_isPublic of
            None \<Rightarrow> u3
          | Some b \<Rightarrow> if authorId n = userId then u3\<lparr>isPublic := b\<rparr> else u3))"

definition updateNote ::
    "uid option \<Rightarrow> nat \<Rightarrow> nid \<Rightarrow> string option \<Rightarrow> string option \<Rightarrow> bool option \<Rightarrow> db
       \<Rightarrow> (error + unit) \<times> db" where
  "updateNote auth now nId a_title a_content a_isPublic d =
     (case auth of
        None \<Rightarrow> (Inl Not_authenticated, d)
      | Some userId \<Rightarrow>
          (case get_note d nId of
             None \<Rightarrow> (Inl Note_not_found, d)
           | Some n \<Rightarrow>
               (case (if authorId n = userId then Inr True
                      else (case unique (by_note_and_user d nId userId) of
                              Inl e \<Rightarrow> Inl e
                            | Inr None \<Rightarrow> Inr False
                            | Inr (Some share) \<Rightarrow> Inr (permission share = Write))) of
                  Inl e \<Rightarrow> (Inl e, d)
                | Inr can \<Rightarrow>
                    if \<not> can then (Inl Not_authorized_to_edit, d)
                    else (Inr (),
                          patch_note nId (updates userId now a_title a_content a_isPublic n) d))))"

definition deleteNote :: "uid option \<Rightarrow> nid \<Rightarrow> db \<Rightarrow> (error + unit) \<times> db" where
  "deleteNote auth nId d =
     (case auth of
        None \<Rightarrow> (Inl Not_authenticated, d)
      | Some userId \<Rightarrow>
          (case get_note d nId of
             None \<Rightarrow> (Inl Note_not_found, d)
           | Some n \<Rightarrow>
               if authorId n \<noteq> userId then (Inl Not_authorized_to_delete, d)
               else
                 (let shares = by_note d nId;
                      d1 = fold (\<lambda>share. delete_share (s_id share)) shares d
                  in (Inr (), delete_note nId d1))))"

definition shareNote ::
    "uid option \<Rightarrow> nid \<Rightarrow> string \<Rightarrow> permission \<Rightarrow> db \<Rightarrow> (error + unit) \<times> db" where
  "shareNote auth nId a_email a_permission d =
     (case auth of
        None \<Rightarrow> (Inl Not_authenticated, d)
      | Some userId \<Rightarrow>
          (case get_note d nId of
             None \<Rightarrow> (Inl Note_not_found, d)
           | Some n \<Rightarrow>
               if authorId n \<noteq> userId then (Inl Not_authorized_to_share, d)
               else
                 (case unique (by_email d a_email) of
                    Inl e \<Rightarrow> (Inl e, d)
                  | Inr None \<Rightarrow> (Inl User_not_found, d)
                  | Inr (Some userToShareWith) \<Rightarrow>
                      if u_id userToShareWith = userId then (Inl Cannot_share_with_yourself, d)
                      else
                        (case unique (by_note_and_user d nId (u_id userToShareWith)) of
                           Inl e \<Rightarrow> (Inl e, d)
                         | Inr (Some existingShare) \<Rightarrow>
                             (Inr (),
                              patch_share (s_id existingShare)
                                (\<lambda>s. s\<lparr>permission := a_permission\<rparr>) d)
                         | Inr None \<Rightarrow>
                             (Inr (),
                              snd (insert_share
                                     \<lparr>s_id = 0,
                                      noteId = nId,
                                      sharedWithId = u_id userToShareWith,
                                      permission = a_permission,
                                      sharedBy = userId\<rparr> d))))))"

subsection \<open>searchNotes\<close>

text \<open>\<open>String.prototype.trim\<close> on the code units a \<open>char\<close> can hold.\<close>

definition is_ws :: "char \<Rightarrow> bool" where
  "is_ws c = (c \<in> set [CHR 0x09, CHR 0x0A, CHR 0x0B, CHR 0x0C, CHR 0x0D, CHR 0x20, CHR 0xA0])"

definition trim :: "string \<Rightarrow> string" where
  "trim s = rev (dropWhile is_ws (rev (dropWhile is_ws s)))"

text \<open>\<open>Array.prototype.findIndex\<close>: the first index whose element passes, or \<open>-1\<close>.\<close>

fun findIndex :: "('a \<Rightarrow> bool) \<Rightarrow> 'a list \<Rightarrow> int" where
  "findIndex P [] = - 1"
| "findIndex P (x # xs) =
     (if P x then 0 else (let i = findIndex P xs in if i < 0 then - 1 else i + 1))"

text \<open>\<open>Array.prototype.filter\<close> with the three-argument callback
  \<open>(element, index, array)\<close>.\<close>

definition filter_indexed :: "('a \<Rightarrow> nat \<Rightarrow> 'a list \<Rightarrow> bool) \<Rightarrow> 'a list \<Rightarrow> 'a list" where
  "filter_indexed f xs = map fst (filter (\<lambda>(x, i). f x i xs) (zip xs [0..<length xs]))"

text \<open>The text index \<open>search_content\<close> belongs to the store. It is a parameter: the
  matches of a query text among the rows of the table, in the index's relevance order.
  The equality filter of the search and \<open>take(10)\<close> are applied to its answer.\<close>

definition searchNotes ::
    "(string \<Rightarrow> note_doc list \<Rightarrow> note_doc list) \<Rightarrow> uid option \<Rightarrow> string \<Rightarrow> db
       \<Rightarrow> note_with_author list" where
  "searchNotes search_content auth q d =
     (if trim q = [] then []
      else
        (let publicResults =
               take 10 (filter (\<lambda>n. isPublic n = True) (search_content q (tbl_notes d)))
         in (case auth of
               None \<Rightarrow>
                 map (\<lambda>n. with_author n (display_name (get_user d (authorId n)) ''Anonymous''))
                   publicResults
             | Some userId \<Rightarrow>
                 (let userResults =
                        take 10 (filter (\<lambda>n. authorId n = userId)
                                   (search_content q (tbl_notes d)));
                      allResults = publicResults @ userResults;
                      uniqueResults =
                        filter_indexed
                          (\<lambda>n index self. int index = findIndex (\<lambda>m. n_id m = n_id n) self)
                          allResults;
                      resultsWithAuthors =
                        map (\<lambda>n. with_author n
                                   (if authorId n = userId then ''You''
                                    else display_name (get_user d (authorId n)) ''Anonymous''))
                          uniqueResults
                  in take 10 resultsWithAuthors))))"

section \<open>Notions used to state the properties\<close>

text \<open>What the access resolver of \<open>getNote\<close> says about editing: the \<open>canEdit\<close> flag of
  the returned object, and no grant when nothing is returned.\<close>

definition resolver_canEdit :: "uid option \<Rightarrow> nid \<Rightarrow> db \<Rightarrow> bool" where
  "resolver_canEdit auth nId d =
     (case getNote auth nId d of Inr (Some v) \<Rightarrow> canEdit v | _ \<Rightarrow> False)"

text \<open>The write permission \<open>updateNote\<close> itself looks for: a share of the note held by
  the requester with permission \<open>write\<close>.\<close>

definition holds_write_share :: "db \<Rightarrow> nid \<Rightarrow> uid \<Rightarrow> bool" where
  "holds_write_share d nId r = (\<exists>s \<in> set (by_note_and_user d nId r). permission s = Write)"

text \<open>Identifiers come from the counter: every share document's identifier, and every
  note document's, is below it.\<close>

definition shares_fresh :: "db \<Rightarrow> bool" where
  "shares_fresh d = (\<forall>s \<in> set (tbl_noteShares d). s_id s < next_id d)"

definition notes_fresh :: "db \<Rightarrow> bool" where
  "notes_fresh d = (\<forall>n \<in> set (tbl_notes d). n_id n < next_id d)"

text \<open>A run of \<open>shareNote\<close> calls by one owner for one note and one e-mail address, each
  with its own permission; it stops at the first call that throws.\<close>

fun shareNote_seq :: "uid \<Rightarrow> nid \<Rightarrow> string \<Rightarrow> permission list \<Rightarrow> db \<Rightarrow> (error + unit) \<times> db" where
  "shareNote_seq owner nId e [] d = (Inr (), d)"
| "shareNote_seq owner nId e (p # ps) d =
     (case shareNote (Some owner) nId e p d of
        (Inl err, d') \<Rightarrow> (Inl err, d')
      | (Inr _, d') \<Rightarrow> shareNote_seq owner nId e ps d')"

text \<open>Deduplication as the specification words it: by note identity, the first occurrence
  wins. \<open>seen\<close> holds the identifiers already passed.\<close>

fun dedup_first :: "nid list \<Rightarrow> note_doc list \<Rightarrow> note_doc list" where
  "dedup_first seen [] = []"
| "dedup_first seen (n # ns) =
     (if n_id n \<in> set seen then dedup_first seen ns
      else n # dedup_first (n_id n # seen) ns)"

text \<open>The two search scopes and the label of a result, as \<open>searchNotes\<close> computes them
  for a signed-in requester.\<close>

definition public_scope :: "(string \<Rightarrow> note_doc list \<Rightarrow> note_doc list) \<Rightarrow> string \<Rightarrow> db \<Rightarrow> note_doc list" where
  "public_scope search_content q d =
     take 10 (filter (\<lambda>n. isPublic n) (search_content q (tbl_notes d)))"

definition own_scope ::
    "(string \<Rightarrow> note_doc list \<Rightarrow> note_doc list) \<Rightarrow> uid \<Rightarrow> string \<Rightarrow> db \<Rightarrow> note_doc list" where
  "own_scope search_content r q d =
     take 10 (filter (\<lambda>n. authorId n = r) (search_content q (tbl_notes d)))"

definition label :: "uid \<Rightarrow> db \<Rightarrow> note_doc \<Rightarrow> string" where
  "label r d n =
     (if authorId n = r then ''You'' else display_name (get_user d (authorId n)) ''Anonymous'')"

section \<open>An example database\<close>

definition ann :: user_doc where
  "ann = \<lparr>u_id = 1, name = Some ''Ann'', email = Some ''ann@example.org''\<rparr>"

definition bob :: user_doc where
  "bob = \<lparr>u_id = 2, name = None, email = Some ''bob@example.org''\<rparr>"

definition cyd :: user_doc where
  "cyd = \<lparr>u_id = 3, name = Some [], email = None\<rparr>"

definition pub_note :: note_doc where
  "pub_note = \<lparr>n_id = 10, title = ''Plan'', content = ''foo bar'', isPublic = True,
      authorId = 1, lastEditedBy = None, lastEditedAt = 100\<rparr>"

definition priv_note :: note_doc where
  "priv_note = \<lparr>n_id = 11, title = ''Diary'', content = ''foo'', isPublic = False,
      authorId = 1, lastEditedBy = None, lastEditedAt = 101\<rparr>"

definition bob_note :: note_doc where
  "bob_note = \<lparr>n_id = 12, title = ''List'', content = ''foo baz'', isPublic = True,
      authorId = 2, lastEditedBy = None, lastEditedAt = 102\<rparr>"

definition write_share :: share_doc where
  "write_share = \<lparr>s_id = 20, noteId = 10, sharedWithId = 2, permission = Write, sharedBy = 1\<rparr>"

definition read_share :: share_doc where
  "read_share = \<lparr>s_id = 21, noteId = 11, sharedWithId = 2, permission = Read, sharedBy = 1\<rparr>"

definition db0 :: db where
  "db0 = \<lparr>tbl_users = [ann, bob, cyd],
          tbl_notes = [pub_note, priv_note, bob_note],
          tbl_noteShares = [write_share, read_share],
          next_id = 30\<rparr>"

text \<open>The example database before the public note is shared, and with a write share of
  the private note for the third user.\<close>

definition db_unshared :: db where
  "db_unshared = db0\<lparr>tbl_noteShares := []\<rparr>"

definition cyd_share :: share_doc where
  "cyd_share = \<lparr>s_id = 22, noteId = 11, sharedWithId = 3, permission = Write, sharedBy = 1\<rparr>"

definition db_w :: db where
  "db_w = db0\<lparr>tbl_noteShares := [write_share, read_share, cyd_share]\<rparr>"

text \<open>A database for searching: a user whose name is "You", a requester with a public and
  a private note, and a public note whose author has no user document.\<close>

definition eve :: user_doc where
  "eve = \<lparr>u_id = 4, name = Some ''You'', email = Some ''eve@example.org''\<rparr>"

definition dan :: user_doc where
  "dan = \<lparr>u_id = 5, name = Some ''Dan'', email = None\<rparr>"

definition cyd_note :: note_doc where
  "cyd_note = \<lparr>n_id = 13, title = ''Memo'', content = ''foo'', isPublic = True,
      authorId = 3, lastEditedBy = None, lastEditedAt = 103\<rparr>"

definition eve_note :: note_doc where
  "eve_note = \<lparr>n_id = 14, title = ''Trip'', content = ''foo'', isPublic = True,
      authorId = 4, lastEditedBy = None, lastEditedAt = 104\<rparr>"

definition dan_priv :: note_doc where
  "dan_priv = \<lparr>n_id = 15, title = ''Draft'', content = ''foo'', isPublic = False,
      authorId = 5, lastEditedBy = None, lastEditedAt = 105\<rparr>"

definition dan_pub :: note_doc where
  "dan_pub = \<lparr>n_id = 16, title = ''Talk'', content = ''foo'', isPublic = True,
      authorId = 5, lastEditedBy = None, lastEditedAt = 106\<rparr>"

definition ghost_note :: note_doc where
  "ghost_note = \<lparr>n_id = 17, title = ''Old'', content = ''foo'', isPublic = True,
      authorId = 9, lastEditedBy = None, lastEditedAt = 107\<rparr>"

definition db1 :: db where
  "db1 = \<lparr>tbl_users = [ann, bob, cyd, eve, dan],
          tbl_notes = [pub_note, bob_note, cyd_note, eve_note, dan_priv, dan_pub, ghost_note],
          tbl_noteShares = [],
          next_id = 30\<rparr>"

text \<open>A text index for the examples: every row matches, newest first.\<close>

definition newest_first :: "string \<Rightarrow> note_doc list \<Rightarrow> note_doc list" where
  "newest_first q ns = rev ns"

lemmas ex_defs =
  db0_def ann_def bob_def cyd_def pub_note_def priv_note_def bob_note_def
  write_share_def read_share_def newest_first_def
  db_unshared_def cyd_share_def db_w_def eve_def dan_def cyd_note_def eve_note_def
  dan_priv_def dan_pub_def ghost_note_def db1_def

section \<open>Auxiliary facts\<close>

subsection \<open>Store primitives\<close>

lemma get_note_id: "get_note d i = Some n \<Longrightarrow> n_id n = i"
  by (auto simp: get_note_def find_Some_iff)

lemma find_patch:
  "(\<And>n. n_id (f n) = n_id n) \<Longrightarrow>
   find (\<lambda>n. n_id n = i) (map (\<lambda>n. if n_id n = i then f n else n) ns) =
   map_option f (find (\<lambda>n. n_id n = i) ns)"
  by (induction ns) auto

lemma find_append_cases:
  "find P (xs @ ys) = (case find P xs of None \<Rightarrow> find P ys | Some x \<Rightarrow> Some x)"
  by (induction xs) auto

lemma find_fresh:
  "notes_fresh d \<Longrightarrow> find (\<lambda>n. n_id n = next_id d) (tbl_notes d) = None"
  by (auto simp: notes_fresh_def find_None_iff)

lemma in_map_filterD:
  "y \<in> set (List.map_filter f xs) \<Longrightarrow> \<exists>x \<in> set xs. f x = Some y"
  by (induction xs) (auto split: option.splits)

subsection \<open>Returned objects\<close>

lemma canEdit_with_access [simp]: "canEdit (with_access n a c) = c"
  by (simp add: with_access_def with_author_def note_doc.defs note_with_author.defs
        note_with_access.defs)

lemma truncate_with_access [simp]: "note_doc.truncate (with_access n a c) = n"
  by (simp add: with_access_def with_author_def note_doc.defs note_with_author.defs
        note_with_access.defs)

lemma n_id_with_share [simp]: "n_id (with_share n a p) = n_id n"
  by (simp add: with_share_def with_author_def note_doc.defs note_with_author.defs
        note_with_share.defs)

subsection \<open>updateNote\<close>

lemma updateNote_error_keeps_db:
  "fst (updateNote auth now nId t c p d) = Inl e \<Longrightarrow> snd (updateNote auth now nId t c p d) = d"
  by (auto simp: updateNote_def split: option.splits sum.splits if_splits)

lemma updateNote_denied_iff:
  assumes "get_note d nId = Some n" and "length (by_note_and_user d nId r) \<le> 1"
  shows "fst (updateNote (Some r) now nId t c p d) = Inl Not_authorized_to_edit \<longleftrightarrow>
         \<not> (authorId n = r \<or> holds_write_share d nId r)"
  using assms
  by (cases "by_note_and_user d nId r" rule: unique.cases)
     (auto simp: updateNote_def holds_write_share_def)

lemma resolver_private:
  assumes "get_note d nId = Some n" and "length (by_note_and_user d nId r) \<le> 1"
    and "\<not> isPublic n"
  shows "resolver_canEdit (Some r) nId d \<longleftrightarrow> (authorId n = r \<or> holds_write_share d nId r)"
  using assms
  by (cases "by_note_and_user d nId r" rule: unique.cases)
     (auto simp: resolver_canEdit_def getNote_def holds_write_share_def)

lemma n_id_updates [simp]: "n_id (updates r now t c p n stored) = n_id stored"
  by (simp add: updates_def Let_def split: option.splits)

lemma get_note_patch:
  "get_note (patch_note i (updates r now t c p n) d) i =
   map_option (updates r now t c p n) (get_note d i)"
  by (simp add: get_note_def patch_note_def find_patch)

lemma updateNote_success:
  assumes "updateNote (Some r) now nId t c p d = (Inr (), d')"
  shows "\<exists>n. get_note d nId = Some n \<and> get_note d' nId = Some (updates r now t c p n n)"
  using assms
  by (auto simp: updateNote_def get_note_patch split: option.splits sum.splits if_splits)

lemma updateNote_outcome_without_isPublic:
  "fst (updateNote auth now nId t c p d) = fst (updateNote auth now nId t c None d)"
  by (auto simp: updateNote_def split: option.splits sum.splits if_splits)

subsection \<open>deleteNote\<close>

lemma shares_fold_delete:
  "tbl_noteShares (fold (\<lambda>share. delete_share (s_id share)) xs d) =
     filter (\<lambda>s. s_id s \<notin> s_id ` set xs) (tbl_noteShares d)"
  by (induction xs arbitrary: d) (auto simp: delete_share_def intro: filter_cong)

lemma deleteNote_success_state:
  assumes "get_note d nId = Some n" and "authorId n = r"
  shows "deleteNote (Some r) nId d =
           (Inr (), delete_note nId (fold (\<lambda>share. delete_share (s_id share)) (by_note d nId) d))"
  using assms by (simp add: deleteNote_def Let_def)

lemma by_note_after_delete:
  "by_note (delete_note nId (fold (\<lambda>share. delete_share (s_id share)) (by_note d nId) d)) nId = []"
  by (auto simp: by_note_def delete_note_def shares_fold_delete filter_empty_conv)

lemma get_note_after_delete: "get_note (delete_note nId d) nId = None"
  by (auto simp: get_note_def delete_note_def find_None_iff)

lemma getSharedNotes_ids:
  assumes "v \<in> set (getSharedNotes (Some u) d)"
  shows "\<exists>s \<in> set (tbl_noteShares d). noteId s = n_id v \<and> sharedWithId s = u"
proof -
  from assms obtain s where s: "s \<in> set (by_user d u)"
    and v: "(case get_note d (noteId s) of None \<Rightarrow> None
             | Some n \<Rightarrow> Some (with_share n (display_name (get_user d (authorId n)) ''Unknown'')
                                 (permission s))) = Some v"
    by (auto simp: getSharedNotes_def dest!: in_map_filterD)
  from v obtain n where n: "get_note d (noteId s) = Some n" and "n_id v = n_id n"
    by (auto split: option.splits)
  with get_note_id [OF n] s show ?thesis
    by (auto simp: by_user_def)
qed

subsection \<open>shareNote\<close>

lemma shareNote_error_keeps_db:
  "fst (shareNote auth nId e p d) = Inl err \<Longrightarrow> snd (shareNote auth nId e p d) = d"
  by (auto simp: shareNote_def split: option.splits sum.splits if_splits)

lemma filter_patch_share:
  "filter (\<lambda>s. noteId s = n \<and> sharedWithId s = u)
     (map (\<lambda>s. if s_id s = i then s\<lparr>permission := p\<rparr> else s) xs) =
   map (\<lambda>s. if s_id s = i then s\<lparr>permission := p\<rparr> else s)
     (filter (\<lambda>s. noteId s = n \<and> sharedWithId s = u) xs)"
  by (induction xs) auto

lemma patch_share_twice:
  "patch_share i (\<lambda>s. s\<lparr>permission := p\<rparr>) (patch_share i (\<lambda>s. s\<lparr>permission := p\<rparr>) d) =
   patch_share i (\<lambda>s. s\<lparr>permission := p\<rparr>) d"
  by (simp add: patch_share_def comp_def if_distrib cong: if_cong)

lemma patch_share_fresh:
  "\<forall>s \<in> set (tbl_noteShares d). s_id s = i \<longrightarrow> permission s = p \<Longrightarrow>
   patch_share i (\<lambda>s. s\<lparr>permission := p\<rparr>) d = d"
  by (simp add: patch_share_def map_idI)

lemma shareNote_step:
  assumes ok: "shareNote (Some owner) nId e p d = (Inr (), d')" and fresh: "shares_fresh d"
  shows "\<exists>u s. by_email d' e = [u] \<and> u_id u \<noteq> owner
           \<and> by_note_and_user d' nId (u_id u) = [s] \<and> permission s = p
           \<and> shareNote (Some owner) nId e p d' = (Inr (), d')
           \<and> shares_fresh d'"
proof -
  from ok obtain n where n: "get_note d nId = Some n" "authorId n = owner"
    by (auto simp: shareNote_def split: option.splits if_splits)
  from ok n obtain u where u: "unique (by_email d e) = Inr (Some u)" "u_id u \<noteq> owner"
    by (auto simp: shareNote_def split: option.splits if_splits sum.splits)
  then have ue: "by_email d e = [u]"
    by (cases "by_email d e" rule: unique.cases) auto
  from ok n u obtain existing where
    ex: "unique (by_note_and_user d nId (u_id u)) = Inr existing"
    by (auto simp: shareNote_def split: sum.splits)
  show ?thesis
  proof (cases existing)
    case None
    with ex have emp: "by_note_and_user d nId (u_id u) = []"
      by (cases "by_note_and_user d nId (u_id u)" rule: unique.cases) auto
    let ?new = "\<lparr>s_id = next_id d, noteId = nId, sharedWithId = u_id u, permission = p,
                 sharedBy = owner\<rparr>"
    from ok n u ex None have d': "d' = d\<lparr>tbl_noteShares := tbl_noteShares d @ [?new],
                                       next_id := Suc (next_id d)\<rparr>"
      by (simp add: shareNote_def insert_share_def)
    have one: "by_note_and_user d' nId (u_id u) = [?new]"
      using emp by (simp add: d' by_note_and_user_def)
    have same: "\<forall>s \<in> set (tbl_noteShares d'). s_id s = next_id d \<longrightarrow> permission s = p"
      using fresh by (auto simp: d' shares_fresh_def)
    have again: "shareNote (Some owner) nId e p d' = (Inr (), d')"
      using n ue u one patch_share_fresh [OF same]
      by (simp add: shareNote_def d' get_note_def by_email_def)
    have "shares_fresh d'" using fresh by (auto simp: d' shares_fresh_def)
    with ue u one again show ?thesis by (auto simp: d' by_email_def)
  next
    case (Some x)
    with ex have one0: "by_note_and_user d nId (u_id u) = [x]"
      by (cases "by_note_and_user d nId (u_id u)" rule: unique.cases) auto
    from ok n u ex Some have d': "d' = patch_share (s_id x) (\<lambda>s. s\<lparr>permission := p\<rparr>) d"
      by (simp add: shareNote_def)
    have one: "by_note_and_user d' nId (u_id u) = [x\<lparr>permission := p\<rparr>]"
      using one0 by (simp add: d' by_note_and_user_def patch_share_def filter_patch_share)
    have again: "shareNote (Some owner) nId e p d' = (Inr (), d')"
      using n ue u one patch_share_twice [of "s_id x" p d]
      by (simp add: shareNote_def d' get_note_def by_email_def patch_share_def)
    have "shares_fresh d'" using fresh by (auto simp: d' shares_fresh_def patch_share_def)
    with ue u one again show ?thesis by (auto simp: d' by_email_def patch_share_def)
  qed
qed

text \<open>The share table keeps at most one row per note and user.\<close>

lemma shareNote_keeps_pairs_unique:
  assumes "length (by_note_and_user d n u) \<le> 1"
  shows "length (by_note_and_user (snd (shareNote auth nId e p d)) n u) \<le> 1"
proof (cases "shareNote auth nId e p d")
  case (Pair res d')
  show ?thesis
  proof (cases res)
    case (Inl err)
    with Pair shareNote_error_keeps_db [of auth nId e p d err] assms show ?thesis by simp
  next
    case (Inr x)
    with Pair obtain owner target where
      t: "unique (by_email d e) = Inr (Some target)" and au: "auth = Some owner"
      by (auto simp: shareNote_def split: option.splits if_splits sum.splits)
    from Pair Inr t au obtain existing where
      ex: "unique (by_note_and_user d nId (u_id target)) = Inr existing"
      by (auto simp: shareNote_def split: option.splits if_splits sum.splits)
    show ?thesis
    proof (cases existing)
      case None
      with ex have emp: "by_note_and_user d nId (u_id target) = []"
        by (cases "by_note_and_user d nId (u_id target)" rule: unique.cases) auto
      from Pair Inr t au ex None
      have "tbl_noteShares d' = tbl_noteShares d @
              [\<lparr>s_id = next_id d, noteId = nId, sharedWithId = u_id target, permission = p,
                sharedBy = owner\<rparr>]"
        by (auto simp: shareNote_def insert_share_def split: option.splits if_splits)
      with emp assms Pair show ?thesis
        by (auto simp: by_note_and_user_def)
    next
      case (Some x)
      from Pair Inr t au ex Some
      have "d' = patch_share (s_id x) (\<lambda>s. s\<lparr>permission := p\<rparr>) d"
        by (auto simp: shareNote_def split: option.splits if_splits)
      with assms Pair show ?thesis
        by (simp add: by_note_and_user_def patch_share_def filter_patch_share)
    qed
  qed
qed

subsection \<open>searchNotes\<close>

lemma findIndex_ge: "- 1 \<le> findIndex P xs"
  by (induction xs) (auto simp: Let_def)

lemma findIndex_append:
  "findIndex P (pre @ x # xs) = int (length pre) \<longleftrightarrow> P x \<and> (\<forall>y \<in> set pre. \<not> P y)"
proof (induction pre)
  case Nil
  show ?case using findIndex_ge [of P xs] by (auto simp: Let_def)
next
  case (Cons a pre)
  then show ?case using findIndex_ge [of P "pre @ x # xs"] by (auto simp: Let_def)
qed

lemma no_key_iff: "(\<forall>y \<in> set ys. f y \<noteq> a) \<longleftrightarrow> a \<notin> set (map f ys)"
  by (induction ys) auto

lemma dedup_first_seen_cong:
  "set s1 = set s2 \<Longrightarrow> dedup_first s1 xs = dedup_first s2 xs"
proof (induction xs arbitrary: s1 s2)
  case Nil
  show ?case by simp
next
  case (Cons x xs)
  from Cons.prems have "set (n_id x # s1) = set (n_id x # s2)" by simp
  from Cons.IH [OF this] Cons.IH [OF Cons.prems] Cons.prems show ?case by simp
qed

lemma unique_results_from:
  "map fst (filter (\<lambda>(n, index). int index = findIndex (\<lambda>m. n_id m = n_id n) (pre @ xs))
              (zip xs [length pre ..< length pre + length xs]))
   = dedup_first (map n_id pre) xs"
proof (induction xs arbitrary: pre)
  case Nil
  show ?case by simp
next
  case (Cons x xs)
  have up: "[length pre ..< length pre + length (x # xs)] =
            length pre # [length (pre @ [x]) ..< length (pre @ [x]) + length xs]"
  proof -
    have "length pre < length pre + length (x # xs)" by simp
    from upt_conv_Cons [OF this] show ?thesis by simp
  qed
  have keep: "int (length pre) = findIndex (\<lambda>m. n_id m = n_id x) (pre @ x # xs)
              \<longleftrightarrow> n_id x \<notin> set (map n_id pre)"
  proof -
    have "(\<forall>y \<in> set pre. n_id y \<noteq> n_id x) \<longleftrightarrow> n_id x \<notin> set (map n_id pre)"
      by (rule no_key_iff)
    with findIndex_append [of "\<lambda>m. n_id m = n_id x" pre x xs] show ?thesis
      by (simp add: eq_commute)
  qed
  have ih: "map fst (filter (\<lambda>(n, index). int index = findIndex (\<lambda>m. n_id m = n_id n) (pre @ x # xs))
              (zip xs [length (pre @ [x]) ..< length (pre @ [x]) + length xs]))
            = dedup_first (map n_id (pre @ [x])) xs"
    using Cons.IH [of "pre @ [x]"] by simp
  show ?case
  proof (cases "n_id x \<in> set (map n_id pre)")
    case True
    then have "set (map n_id (pre @ [x])) = set (map n_id pre)" by auto
    from dedup_first_seen_cong [OF this] True keep ih show ?thesis
      unfolding up by simp
  next
    case False
    have "set (map n_id (pre @ [x])) = set (n_id x # map n_id pre)" by auto
    from dedup_first_seen_cong [OF this] False keep ih show ?thesis
      unfolding up by simp
  qed
qed

lemma unique_results:
  "filter_indexed (\<lambda>n index self. int index = findIndex (\<lambda>m. n_id m = n_id n) self) xs
   = dedup_first [] xs"
  using unique_results_from [of "[]" xs] by (simp add: filter_indexed_def)

lemma set_dedup_first: "set (dedup_first seen xs) \<subseteq> set xs"
  by (induction xs arbitrary: seen) auto

lemma searchNotes_signed_in:
  "trim q \<noteq> [] \<Longrightarrow>
   searchNotes sc (Some r) q d =
     take 10 (map (\<lambda>n. with_author n (label r d n))
                (dedup_first [] (public_scope sc q d @ own_scope sc r q d)))"
  by (simp add: searchNotes_def Let_def unique_results public_scope_def own_scope_def label_def)

lemma searchNotes_anonymous:
  "searchNotes sc None q d =
     (if trim q = [] then []
      else map (\<lambda>n. with_author n (display_name (get_user d (authorId n)) ''Anonymous''))
             (public_scope sc q d))"
  by (simp add: searchNotes_def Let_def public_scope_def)

lemma with_author_fields [simp]:
  "authorName (with_author n a) = a" "authorId (with_author n a) = authorId n"
  "isPublic (with_author n a) = isPublic n" "n_id (with_author n a) = n_id n"
  "note_doc.truncate (with_author n a) = n"
  by (simp_all add: with_author_def note_doc.defs note_with_author.defs)

lemma public_scope_public: "n \<in> set (public_scope sc q d) \<Longrightarrow> isPublic n"
  by (auto simp: public_scope_def dest: in_set_takeD)

lemma own_scope_own: "n \<in> set (own_scope sc r q d) \<Longrightarrow> authorId n = r"
  by (auto simp: own_scope_def dest: in_set_takeD)

lemma dedup_first_unseen: "n \<in> set (dedup_first seen xs) \<Longrightarrow> n_id n \<notin> set seen"
proof (induction xs arbitrary: seen)
  case Nil
  then show ?case by simp
next
  case (Cons a xs)
  show ?case
  proof (cases "n_id a \<in> set seen")
    case True
    with Cons show ?thesis by simp
  next
    case False
    with Cons.prems have "n = a \<or> n \<in> set (dedup_first (n_id a # seen) xs)" by simp
    then show ?thesis
    proof
      assume "n = a"
      with False show ?thesis by simp
    next
      assume "n \<in> set (dedup_first (n_id a # seen) xs)"
      from Cons.IH [OF this] show ?thesis by simp
    qed
  qed
qed

lemma dedup_first_distinct: "distinct (map n_id (dedup_first seen xs))"
  by (induction xs arbitrary: seen) (auto dest: dedup_first_unseen)

subsection \<open>The search example\<close>

lemma trim_foo: "trim ''foo'' \<noteq> []"
  by (simp add: trim_def is_ws_def)

lemma search_db1:
  "searchNotes newest_first (Some 5) ''foo'' db1
     = [with_author ghost_note ''Anonymous'', with_author dan_pub ''You'',
        with_author eve_note ''You'', with_author cyd_note ''Anonymous'',
        with_author bob_note ''bob@example.org'', with_author pub_note ''Ann'',
        with_author dan_priv ''You'']"
proof -
  have n: "newest_first ''foo'' (tbl_notes db1)
      = [ghost_note, dan_pub, dan_priv, eve_note, cyd_note, bob_note, pub_note]"
    by (simp add: newest_first_def db1_def)
  have pub: "isPublic ghost_note" "isPublic dan_pub" "\<not> isPublic dan_priv" "isPublic eve_note"
    "isPublic cyd_note" "isPublic bob_note" "isPublic pub_note"
    by (simp_all add: ghost_note_def dan_pub_def dan_priv_def eve_note_def cyd_note_def
          bob_note_def pub_note_def)
  have au: "authorId ghost_note = 9" "authorId dan_pub = 5" "authorId dan_priv = 5"
    "authorId eve_note = 4" "authorId cyd_note = 3" "authorId bob_note = 2"
    "authorId pub_note = Suc 0"
    by (simp_all add: ghost_note_def dan_pub_def dan_priv_def eve_note_def cyd_note_def
          bob_note_def pub_note_def)
  have ids: "n_id ghost_note = 17" "n_id dan_pub = 16" "n_id dan_priv = 15" "n_id eve_note = 14"
    "n_id cyd_note = 13" "n_id bob_note = 12" "n_id pub_note = 10"
    by (simp_all add: ghost_note_def dan_pub_def dan_priv_def eve_note_def cyd_note_def
          bob_note_def pub_note_def)
  have pu: "public_scope newest_first ''foo'' db1
      = [ghost_note, dan_pub, eve_note, cyd_note, bob_note, pub_note]"
    by (simp add: public_scope_def n pub)
  have ow: "own_scope newest_first 5 ''foo'' db1 = [dan_pub, dan_priv]"
    by (simp add: own_scope_def n au)
  have us: "get_user db1 9 = None" "get_user db1 4 = Some eve" "get_user db1 3 = Some cyd"
    "get_user db1 2 = Some bob" "get_user db1 (Suc 0) = Some ann"
    by (simp_all add: get_user_def db1_def ann_def bob_def cyd_def eve_def dan_def)
  have dn: "display_name None ''Anonymous'' = ''Anonymous''"
    "display_name (Some eve) ''Anonymous'' = ''You''"
    "display_name (Some cyd) ''Anonymous'' = ''Anonymous''"
    "display_name (Some bob) ''Anonymous'' = ''bob@example.org''"
    "display_name (Some ann) ''Anonymous'' = ''Ann''"
    by (simp_all add: display_name_def ann_def bob_def cyd_def eve_def)
  have l: "label 5 db1 ghost_note = ''Anonymous''" "label 5 db1 dan_pub = ''You''"
    "label 5 db1 eve_note = ''You''" "label 5 db1 cyd_note = ''Anonymous''"
    "label 5 db1 bob_note = ''bob@example.org''" "label 5 db1 pub_note = ''Ann''"
    "label 5 db1 dan_priv = ''You''"
    by (simp_all add: label_def au us dn)
  show ?thesis
    by (simp add: searchNotes_signed_in [OF trim_foo] pu ow ids l)
qed

section \<open>Properties of the handlers\<close>

subsection \<open>Editing rights\<close>

text \<open>
  C1. \<open>updateNote\<close> is to throw "Not authorized to edit this note" exactly when the
  resolver of \<open>getNote\<close> does not grant \<open>canEdit\<close>. The two checks are written
  separately and differ on a public note: \<open>getNote\<close> grants \<open>canEdit\<close> to the author
  only, \<open>updateNote\<close> never reads \<open>isPublic\<close>. In the example the author shares the
  public note 10 with user 2 for writing. For user 2 the resolver then does not grant
  \<open>canEdit\<close>, and yet \<open>updateNote\<close> by user 2 succeeds and stores the new title.
\<close>

theorem updateNote_accepts_where_resolver_denies:
  "get_note db_unshared 10 = Some pub_note \<and> isPublic pub_note
   \<and> fst (shareNote (Some 1) 10 ''bob@example.org'' Write db_unshared) = Inr ()
   \<and> \<not> resolver_canEdit (Some 2) 10
         (snd (shareNote (Some 1) 10 ''bob@example.org'' Write db_unshared))
   \<and> fst (updateNote (Some 2) 500 10 (Some ''x'') None None
            (snd (shareNote (Some 1) 10 ''bob@example.org'' Write db_unshared))) = Inr ()
   \<and> get_note (snd (updateNote (Some 2) 500 10 (Some ''x'') None None
            (snd (shareNote (Some 1) 10 ''bob@example.org'' Write db_unshared)))) 10
       = Some (pub_note\<lparr>title := ''x'', lastEditedBy := Some 2, lastEditedAt := 500\<rparr>)"
  by (simp add: resolver_canEdit_def getNote_def updateNote_def shareNote_def get_note_def
        by_note_and_user_def by_email_def insert_share_def patch_note_def updates_def ex_defs)

text \<open>
  On a private note the two checks agree: with at most one share row for the requester,
  \<open>updateNote\<close> throws the authorization error exactly when the resolver does not grant
  \<open>canEdit\<close>. Whenever \<open>updateNote\<close> throws, the database is as it was.
\<close>

lemma updateNote_private_agrees_with_resolver:
  assumes "get_note d nId = Some n" and "length (by_note_and_user d nId r) \<le> 1"
    and "\<not> isPublic n"
  shows "(fst (updateNote (Some r) now nId t c p d) = Inl Not_authorized_to_edit \<longleftrightarrow>
            \<not> resolver_canEdit (Some r) nId d)
       \<and> (\<forall>e. fst (updateNote (Some r) now nId t c p d) = Inl e \<longrightarrow>
               snd (updateNote (Some r) now nId t c p d) = d)"
  using updateNote_denied_iff [OF assms(1,2)] resolver_private [OF assms]
    updateNote_error_keeps_db
  by blast

text \<open>
  C7. For an existing note, \<open>updateNote\<close> succeeds exactly when the requester is the author
  or holds the one share row of the note for that user with permission \<open>write\<close>; the
  title, content and \<open>isPublic\<close> arguments play no part in that, so supplying
  \<open>isPublic\<close> is never an error. After a successful call the stored note has
  \<open>lastEditedBy\<close> the requester and \<open>lastEditedAt\<close> the current time; a title or
  content that was not supplied is as before, a supplied one is stored; \<open>isPublic\<close>
  takes the supplied value only when the requester is the author and is as before
  otherwise; author and identifier are as before.
\<close>

theorem updateNote_effect:
  assumes "get_note d nId = Some n"
  shows "(fst (updateNote (Some r) now nId t c p d) = Inr () \<longleftrightarrow>
            authorId n = r \<or> (\<exists>s. by_note_and_user d nId r = [s] \<and> permission s = Write))
       \<and> (authorId n = r \<or> (\<exists>s. by_note_and_user d nId r = [s] \<and> permission s = Write) \<longrightarrow>
            (\<exists>n'. get_note (snd (updateNote (Some r) now nId t c p d)) nId = Some n'
               \<and> lastEditedBy n' = Some r \<and> lastEditedAt n' = now
               \<and> title n' = (case t of None \<Rightarrow> title n | Some x \<Rightarrow> x)
               \<and> content n' = (case c of None \<Rightarrow> content n | Some x \<Rightarrow> x)
               \<and> isPublic n' = (case p of None \<Rightarrow> isPublic n
                                 | Some b \<Rightarrow> if r = authorId n then b else isPublic n)
               \<and> authorId n' = authorId n \<and> n_id n' = n_id n))"
proof (intro conjI impI)
  show "fst (updateNote (Some r) now nId t c p d) = Inr () \<longleftrightarrow>
          authorId n = r \<or> (\<exists>s. by_note_and_user d nId r = [s] \<and> permission s = Write)"
    using assms
    by (cases "by_note_and_user d nId r" rule: unique.cases) (auto simp: updateNote_def)
next
  assume ok: "authorId n = r \<or> (\<exists>s. by_note_and_user d nId r = [s] \<and> permission s = Write)"
  with assms have run: "updateNote (Some r) now nId t c p d =
      (Inr (), patch_note nId (updates r now t c p n) d)"
    by (auto simp: updateNote_def)
  have "get_note (snd (updateNote (Some r) now nId t c p d)) nId = Some (updates r now t c p n n)"
    using assms by (simp add: run get_note_patch)
  then show "\<exists>n'. get_note (snd (updateNote (Some r) now nId t c p d)) nId = Some n'
               \<and> lastEditedBy n' = Some r \<and> lastEditedAt n' = now
               \<and> title n' = (case t of None \<Rightarrow> title n | Some x \<Rightarrow> x)
               \<and> content n' = (case c of None \<Rightarrow> content n | Some x \<Rightarrow> x)
               \<and> isPublic n' = (case p of None \<Rightarrow> isPublic n
                                 | Some b \<Rightarrow> if r = authorId n then b else isPublic n)
               \<and> authorId n' = authorId n \<and> n_id n' = n_id n"
    by (auto simp: updates_def Let_def split: option.splits)
qed

theorem updateNote_effect_witness:
  "get_note db_w 11 = Some priv_note \<and> authorId priv_note = 1
   \<and> by_note_and_user db_w 11 3 = [cyd_share] \<and> permission cyd_share = Write
   \<and> fst (updateNote (Some 3) 500 11 (Some ''x'') None (Some True) db_w) = Inr ()
   \<and> get_note (snd (updateNote (Some 3) 500 11 (Some ''x'') None (Some True) db_w)) 11
       = Some (priv_note\<lparr>title := ''x'', lastEditedBy := Some 3, lastEditedAt := 500\<rparr>)
   \<and> get_note db_w 12 = Some bob_note
   \<and> fst (updateNote (Some 2) 600 12 None None (Some False) db_w) = Inr ()
   \<and> get_note (snd (updateNote (Some 2) 600 12 None None (Some False) db_w)) 12
       = Some (bob_note\<lparr>isPublic := False, lastEditedBy := Some 2, lastEditedAt := 600\<rparr>)"
proof -
  have a: "get_note db_w 11 = Some priv_note" by (simp add: get_note_def ex_defs)
  have b: "by_note_and_user db_w 11 3 = [cyd_share]" "permission cyd_share = Write"
    by (simp_all add: by_note_and_user_def ex_defs)
  then have ok: "authorId priv_note = 3
      \<or> (\<exists>s. by_note_and_user db_w 11 3 = [s] \<and> permission s = Write)"
    by simp
  have a': "get_note db_w 12 = Some bob_note" by (simp add: get_note_def ex_defs)
  have ok': "authorId bob_note = 2
      \<or> (\<exists>s. by_note_and_user db_w 12 2 = [s] \<and> permission s = Write)"
    by (simp add: bob_note_def)
  from updateNote_effect [OF a, of 3 500 "Some ''x''" None "Some True"] ok
  obtain n' where n': "fst (updateNote (Some 3) 500 11 (Some ''x'') None (Some True) db_w) = Inr ()"
    "get_note (snd (updateNote (Some 3) 500 11 (Some ''x'') None (Some True) db_w)) 11 = Some n'"
    by blast
  have e: "get_note (snd (updateNote (Some 3) 500 11 (Some ''x'') None (Some True) db_w)) 11
       = Some (priv_note\<lparr>title := ''x'', lastEditedBy := Some 3, lastEditedAt := 500\<rparr>)"
    by (simp add: updateNote_def get_note_def by_note_and_user_def patch_note_def updates_def
          ex_defs)
  from updateNote_effect [OF a', of 2 600 None None "Some False"] ok'
  have f: "fst (updateNote (Some 2) 600 12 None None (Some False) db_w) = Inr ()" by blast
  have g: "get_note (snd (updateNote (Some 2) 600 12 None None (Some False) db_w)) 12
       = Some (bob_note\<lparr>isPublic := False, lastEditedBy := Some 2, lastEditedAt := 600\<rparr>)"
    by (simp add: updateNote_def get_note_def by_note_and_user_def patch_note_def updates_def
          ex_defs)
  have h: "authorId priv_note = 1" by (simp add: priv_note_def)
  from a b a' n'(1) e f g h show ?thesis by simp
qed

subsection \<open>Reading a note\<close>

text \<open>
  C2. For a public note, \<open>getNote\<close> returns the note to every requester, signed in or
  not, and the \<open>canEdit\<close> flag of the returned object is true exactly when the requester
  is the note's author. Shares play no part: the statement holds in every database.
\<close>

theorem getNote_public:
  assumes "get_note d nId = Some n" and "isPublic n"
  shows "\<exists>v. getNote auth nId d = Inr (Some v) \<and> note_doc.truncate v = n
           \<and> (canEdit v \<longleftrightarrow> auth = Some (authorId n))"
  using assms by (simp add: getNote_def)

theorem getNote_public_witness:
  "get_note db0 10 = Some pub_note \<and> isPublic pub_note
   \<and> holds_write_share db0 10 2
   \<and> (\<exists>v. getNote (Some 2) 10 db0 = Inr (Some v) \<and> note_doc.truncate v = pub_note
         \<and> \<not> canEdit v)
   \<and> (\<exists>v. getNote None 10 db0 = Inr (Some v) \<and> \<not> canEdit v)
   \<and> (\<exists>v. getNote (Some 1) 10 db0 = Inr (Some v) \<and> canEdit v)"
proof -
  have a: "get_note db0 10 = Some pub_note" by (simp add: get_note_def ex_defs)
  have b: "isPublic pub_note" by (simp add: pub_note_def)
  have c: "holds_write_share db0 10 2"
    by (simp add: holds_write_share_def by_note_and_user_def ex_defs)
  have e: "authorId pub_note = 1" by (simp add: pub_note_def)
  from getNote_public [OF a b, of "Some 2"] getNote_public [OF a b, of None]
    getNote_public [OF a b, of "Some 1"] a b c e
  show ?thesis by auto
qed

text \<open>
  C3. For a private note and a requester who is not its author and holds no share of it
  (an anonymous requester included), \<open>getNote\<close> returns \<open>null\<close>, which is also what
  it returns, to any requester and in any database, for an identifier that names no note.
\<close>

theorem getNote_private_hidden:
  assumes "get_note d nId = Some n" and "\<not> isPublic n"
    and "auth \<noteq> Some (authorId n)"
    and "\<And>u. auth = Some u \<Longrightarrow> by_note_and_user d nId u = []"
    and "get_note d' nId' = None"
  shows "getNote auth nId d = Inr None \<and> getNote auth' nId' d' = Inr None"
  using assms by (auto simp: getNote_def split: option.splits)

theorem getNote_private_hidden_witness:
  "get_note db0 11 = Some priv_note \<and> \<not> isPublic priv_note
   \<and> by_note_and_user db0 11 3 = [] \<and> get_note db0 99 = None
   \<and> getNote (Some 3) 11 db0 = Inr None \<and> getNote None 11 db0 = Inr None
   \<and> getNote (Some 3) 99 db0 = Inr None"
proof -
  have a: "get_note db0 11 = Some priv_note" by (simp add: get_note_def ex_defs)
  have b: "\<not> isPublic priv_note" by (simp add: priv_note_def)
  have c: "Some 3 \<noteq> Some (authorId priv_note)" "None \<noteq> Some (authorId priv_note)"
    by (simp_all add: priv_note_def)
  have e: "\<And>u. Some 3 = Some u \<Longrightarrow> by_note_and_user db0 11 u = []"
    by (simp add: by_note_and_user_def ex_defs)
  have f: "\<And>u. (None :: uid option) = Some u \<Longrightarrow> by_note_and_user db0 11 u = []"
    by simp
  have g: "get_note db0 99 = None" by (simp add: get_note_def ex_defs)
  from getNote_private_hidden [OF a b c(1) e g, of "Some 3"]
    getNote_private_hidden [OF a b c(2) f g, of None] a b e g
  show ?thesis by simp
qed

subsection \<open>createNote\<close>

text \<open>
  C9. Without a signed-in requester \<open>createNote\<close> throws "Not authenticated" and stores
  nothing. For a requester \<open>r\<close> it returns the identifier the store assigns and appends
  one note: the given title, the content or the empty string when none was given,
  \<open>isPublic\<close> as given or true when omitted, author \<open>r\<close>, \<open>lastEditedAt\<close> the current
  time and no \<open>lastEditedBy\<close>. Users and shares are untouched, and when the identifiers
  in the table come from the counter, reading the returned identifier yields that note.
\<close>

theorem createNote_effect:
  "createNote None now t c p d = (Inl Not_authenticated, d)
   \<and> (\<exists>d'. createNote (Some r) now t c p d = (Inr (next_id d), d')
         \<and> tbl_notes d' = tbl_notes d @
              [\<lparr>n_id = next_id d, title = t,
                content = (case c of None \<Rightarrow> [] | Some x \<Rightarrow> x),
                isPublic = (case p of None \<Rightarrow> True | Some b \<Rightarrow> b),
                authorId = r, lastEditedBy = None, lastEditedAt = now\<rparr>]
         \<and> tbl_users d' = tbl_users d \<and> tbl_noteShares d' = tbl_noteShares d
         \<and> (notes_fresh d \<longrightarrow>
              get_note d' (next_id d) =
                Some \<lparr>n_id = next_id d, title = t,
                      content = (case c of None \<Rightarrow> [] | Some x \<Rightarrow> x),
                      isPublic = (case p of None \<Rightarrow> True | Some b \<Rightarrow> b),
                      authorId = r, lastEditedBy = None, lastEditedAt = now\<rparr>))"
  by (auto simp: createNote_def insert_note_def get_note_def find_append_cases find_fresh
           split: option.splits)

theorem createNote_effect_witness:
  "notes_fresh db0 \<and> createNote None 777 ''T'' None None db0 = (Inl Not_authenticated, db0)
   \<and> fst (createNote (Some 3) 777 ''T'' None None db0) = Inr 30
   \<and> get_note (snd (createNote (Some 3) 777 ''T'' None None db0)) 30
        = Some \<lparr>n_id = 30, title = ''T'', content = [], isPublic = True, authorId = 3,
                lastEditedBy = None, lastEditedAt = 777\<rparr>"
proof -
  have f: "notes_fresh db0" by (simp add: notes_fresh_def ex_defs)
  have n: "next_id db0 = 30" by (simp add: db0_def)
  from createNote_effect [of 777 "''T''" None None db0 3] f n show ?thesis
    by auto
qed

subsection \<open>deleteNote\<close>

text \<open>
  C4. For an existing note and a signed-in requester, \<open>deleteNote\<close> throws "Not authorized
  to delete this note" and changes nothing unless the requester is the note's author,
  whatever shares the requester holds. For the author it succeeds, and in the database
  it leaves no share row refers to the note, the note is gone, and no user's
  \<open>getSharedNotes\<close> lists it.
\<close>

theorem deleteNote_cascade:
  assumes "get_note d nId = Some n"
  shows "(r \<noteq> authorId n \<longrightarrow> deleteNote (Some r) nId d = (Inl Not_authorized_to_delete, d))
       \<and> (r = authorId n \<longrightarrow>
            fst (deleteNote (Some r) nId d) = Inr ()
          \<and> by_note (snd (deleteNote (Some r) nId d)) nId = []
          \<and> get_note (snd (deleteNote (Some r) nId d)) nId = None
          \<and> (\<forall>u. \<forall>v \<in> set (getSharedNotes (Some u) (snd (deleteNote (Some r) nId d))).
                 n_id v \<noteq> nId))"
proof (intro conjI impI)
  assume "r \<noteq> authorId n"
  with assms show "deleteNote (Some r) nId d = (Inl Not_authorized_to_delete, d)"
    by (simp add: deleteNote_def)
next
  assume r: "r = authorId n"
  let ?d' = "snd (deleteNote (Some r) nId d)"
  from deleteNote_success_state [OF assms] r
  have eq: "deleteNote (Some r) nId d =
      (Inr (), delete_note nId (fold (\<lambda>share. delete_share (s_id share)) (by_note d nId) d))"
    by simp
  show "fst (deleteNote (Some r) nId d) = Inr ()" by (simp add: eq)
  show bn: "by_note ?d' nId = []" by (simp add: eq by_note_after_delete)
  show "get_note ?d' nId = None" by (simp add: eq get_note_after_delete)
  show "\<forall>u. \<forall>v \<in> set (getSharedNotes (Some u) ?d'). n_id v \<noteq> nId"
  proof (intro allI ballI notI)
    fix u v assume "v \<in> set (getSharedNotes (Some u) ?d')" and "n_id v = nId"
    with getSharedNotes_ids obtain s where "s \<in> set (tbl_noteShares ?d')" "noteId s = nId"
      by blast
    then have "s \<in> set (by_note ?d' nId)" by (simp add: by_note_def)
    with bn show False by simp
  qed
qed

theorem deleteNote_cascade_witness:
  "get_note db0 10 = Some pub_note \<and> holds_write_share db0 10 2
   \<and> deleteNote (Some 2) 10 db0 = (Inl Not_authorized_to_delete, db0)
   \<and> map n_id (getSharedNotes (Some 2) db0) = [10, 11]
   \<and> deleteNote (Some 1) 10 db0
       = (Inr (), db0\<lparr>tbl_notes := [priv_note, bob_note], tbl_noteShares := [read_share]\<rparr>)
   \<and> by_note (snd (deleteNote (Some 1) 10 db0)) 10 = []
   \<and> map n_id (getSharedNotes (Some 2) (snd (deleteNote (Some 1) 10 db0))) = [11]"
proof -
  have a: "get_note db0 10 = Some pub_note" by (simp add: get_note_def ex_defs)
  have b: "holds_write_share db0 10 2"
    by (simp add: holds_write_share_def by_note_and_user_def ex_defs)
  have c: "2 \<noteq> authorId pub_note" "1 = authorId pub_note" by (simp_all add: pub_note_def)
  have run: "deleteNote (Some 1) 10 db0
       = (Inr (), db0\<lparr>tbl_notes := [priv_note, bob_note], tbl_noteShares := [read_share]\<rparr>)"
    by (simp add: deleteNote_def get_note_def by_note_def delete_share_def delete_note_def
          ex_defs)
  have before: "map n_id (getSharedNotes (Some 2) db0) = [10, 11]"
    by (simp add: getSharedNotes_def by_user_def get_note_def ex_defs)
  have after: "map n_id (getSharedNotes (Some 2)
       (db0\<lparr>tbl_notes := [priv_note, bob_note], tbl_noteShares := [read_share]\<rparr>)) = [11]"
    by (simp add: getSharedNotes_def by_user_def get_note_def ex_defs)
  from deleteNote_cascade [OF a, of 2] deleteNote_cascade [OF a, of 1] a b c run before after
  show ?thesis by simp
qed

subsection \<open>shareNote\<close>

text \<open>
  C8. For an existing note and a signed-in requester \<open>r\<close>, \<open>shareNote\<close> throws, in this
  order of checks and for either permission value: "Not authorized to share this note"
  when \<open>r\<close> is not the author; "User not found" when no user has the e-mail address;
  "Cannot share note with yourself" when the address resolves to \<open>r\<close>. Whenever it
  throws, the database, and so every share row, is as it was.
\<close>

theorem shareNote_failures:
  assumes "get_note d nId = Some n"
  shows "(r \<noteq> authorId n \<longrightarrow> shareNote (Some r) nId e p d = (Inl Not_authorized_to_share, d))
       \<and> (r = authorId n \<and> by_email d e = [] \<longrightarrow>
            shareNote (Some r) nId e p d = (Inl User_not_found, d))
       \<and> (r = authorId n \<and> (\<exists>u. by_email d e = [u] \<and> u_id u = r) \<longrightarrow>
            shareNote (Some r) nId e p d = (Inl Cannot_share_with_yourself, d))
       \<and> (\<forall>err. fst (shareNote (Some r) nId e p d) = Inl err \<longrightarrow>
            snd (shareNote (Some r) nId e p d) = d)"
  using assms shareNote_error_keeps_db [of "Some r" nId e p d]
  by (auto simp: shareNote_def)

theorem shareNote_failures_witness:
  "get_note db0 10 = Some pub_note
   \<and> shareNote (Some 2) 10 ''cyd@example.org'' Write db0 = (Inl Not_authorized_to_share, db0)
   \<and> shareNote (Some 1) 10 ''nobody@example.org'' Read db0 = (Inl User_not_found, db0)
   \<and> shareNote (Some 1) 10 ''ann@example.org'' Read db0 = (Inl Cannot_share_with_yourself, db0)
   \<and> shareNote (Some 1) 10 ''ann@example.org'' Write db0 = (Inl Cannot_share_with_yourself, db0)"
proof -
  have a: "get_note db0 10 = Some pub_note" by (simp add: get_note_def ex_defs)
  have b: "2 \<noteq> authorId pub_note" "1 = authorId pub_note" by (simp_all add: pub_note_def)
  have c: "by_email db0 ''nobody@example.org'' = []" by (simp add: by_email_def ex_defs)
  have e: "by_email db0 ''ann@example.org'' = [ann]" "u_id ann = 1"
    by (simp_all add: by_email_def ex_defs)
  from shareNote_failures [OF a, of 2 "''cyd@example.org''" Write]
    shareNote_failures [OF a, of 1 "''nobody@example.org''" Read]
    shareNote_failures [OF a, of 1 "''ann@example.org''" Read]
    shareNote_failures [OF a, of 1 "''ann@example.org''" Write]
    a b c e
  show ?thesis by simp
qed

text \<open>
  C5. Take any non-empty run of \<open>shareNote\<close> calls by one owner for one note and one
  e-mail address, all of which succeed, from a database whose share identifiers come from
  the counter. Afterwards the address still resolves to one user, distinct from the owner;
  there is exactly one share row for the note and that user; its permission is the one of
  the last call; and repeating the last call succeeds and leaves the database as it is.
\<close>

theorem shareNote_upsert:
  assumes "ps \<noteq> []" and "shares_fresh d" and "shareNote_seq owner nId e ps d = (Inr (), d')"
  shows "\<exists>u s. by_email d' e = [u] \<and> u_id u \<noteq> owner
           \<and> by_note_and_user d' nId (u_id u) = [s] \<and> permission s = last ps
           \<and> shareNote (Some owner) nId e (last ps) d' = (Inr (), d')"
  using assms
proof (induction ps arbitrary: d)
  case Nil
  then show ?case by simp
next
  case (Cons p ps)
  from Cons.prems(3) obtain d1 where
    first: "shareNote (Some owner) nId e p d = (Inr (), d1)"
    and rest: "shareNote_seq owner nId e ps d1 = (Inr (), d')"
    by (auto split: prod.splits sum.splits)
  from shareNote_step [OF first Cons.prems(2)] have step: "\<exists>u s. by_email d1 e = [u] \<and> u_id u \<noteq> owner
           \<and> by_note_and_user d1 nId (u_id u) = [s] \<and> permission s = p
           \<and> shareNote (Some owner) nId e p d1 = (Inr (), d1)" and f1: "shares_fresh d1"
    by blast+
  show ?case
  proof (cases ps)
    case Nil
    with rest step show ?thesis by simp
  next
    case (Cons q qs)
    with Cons.IH [OF _ f1 rest] show ?thesis by simp
  qed
qed

theorem shareNote_upsert_witness:
  "[Read, Write] \<noteq> [] \<and> shares_fresh db0 \<and> by_email db0 ''ann@example.org'' = [ann]
   \<and> fst (shareNote_seq 2 12 ''ann@example.org'' [Read, Write] db0) = Inr ()
   \<and> by_note_and_user (snd (shareNote_seq 2 12 ''ann@example.org'' [Read, Write] db0)) 12 1
        = [\<lparr>s_id = 30, noteId = 12, sharedWithId = 1, permission = Write, sharedBy = 2\<rparr>]
   \<and> shareNote (Some 2) 12 ''ann@example.org'' Write
        (snd (shareNote_seq 2 12 ''ann@example.org'' [Read, Write] db0))
        = (Inr (), snd (shareNote_seq 2 12 ''ann@example.org'' [Read, Write] db0))"
proof -
  let ?d' = "db0\<lparr>tbl_noteShares := [write_share, read_share,
                \<lparr>s_id = 30, noteId = 12, sharedWithId = 1, permission = Write, sharedBy = 2\<rparr>],
              next_id := 31\<rparr>"
  have ne: "[Read, Write] \<noteq> []" by simp
  have fresh: "shares_fresh db0" by (simp add: shares_fresh_def ex_defs)
  have em: "by_email db0 ''ann@example.org'' = [ann]" by (simp add: by_email_def ex_defs)
  have run: "shareNote_seq 2 12 ''ann@example.org'' [Read, Write] db0 = (Inr (), ?d')"
    by (simp add: shareNote_def get_note_def by_email_def by_note_and_user_def
          insert_share_def patch_share_def ex_defs)
  have one: "by_note_and_user ?d' 12 1
        = [\<lparr>s_id = 30, noteId = 12, sharedWithId = 1, permission = Write, sharedBy = 2\<rparr>]"
    by (simp add: by_note_and_user_def ex_defs)
  from shareNote_upsert [OF ne fresh run]
  have "shareNote (Some 2) 12 ''ann@example.org'' Write ?d' = (Inr (), ?d')" by auto
  with ne fresh em run one show ?thesis by simp
qed

subsection \<open>searchNotes\<close>

text \<open>
  C6. For a signed-in requester \<open>r\<close> and a query that is not blank, the notes
  \<open>searchNotes\<close> returns are: the public matches (at most ten) followed by \<open>r\<close>'s own
  matches (at most ten), with later rows of an identifier already seen dropped, and the
  first ten of these kept. The result has at most ten entries and no identifier twice.
  The label of an entry is "You" when its author is \<open>r\<close>; otherwise it is the author's
  name when present and not empty, else the author's e-mail address when present and not
  empty, else "Anonymous" (also when the author has no user document). So an entry is
  labelled "You" exactly when its author is \<open>r\<close> or its author's own label is "You".
\<close>

theorem searchNotes_merge:
  assumes "trim q \<noteq> []"
  shows "map note_doc.truncate (searchNotes sc (Some r) q d) =
           take 10 (dedup_first []
              (take 10 (filter (\<lambda>n. isPublic n) (sc q (tbl_notes d))) @
               take 10 (filter (\<lambda>n. authorId n = r) (sc q (tbl_notes d)))))
       \<and> length (searchNotes sc (Some r) q d) \<le> 10
       \<and> distinct (map n_id (searchNotes sc (Some r) q d))
       \<and> (\<forall>v \<in> set (searchNotes sc (Some r) q d).
            authorName v =
              (if authorId v = r then ''You''
               else (case get_user d (authorId v) of
                       None \<Rightarrow> ''Anonymous''
                     | Some a \<Rightarrow>
                         (case name a of
                            Some (x # xs) \<Rightarrow> x # xs
                          | _ \<Rightarrow> (case email a of
                                    Some (y # ys) \<Rightarrow> y # ys
                                  | _ \<Rightarrow> ''Anonymous'')))))
       \<and> (\<forall>v \<in> set (searchNotes sc (Some r) q d).
            authorName v = ''You'' \<longleftrightarrow>
              authorId v = r \<or> display_name (get_user d (authorId v)) ''Anonymous'' = ''You'')"
proof -
  note eq = searchNotes_signed_in [OF assms, of sc r d]
  have tr: "map note_doc.truncate (searchNotes sc (Some r) q d) =
           take 10 (dedup_first []
              (take 10 (filter (\<lambda>n. isPublic n) (sc q (tbl_notes d))) @
               take 10 (filter (\<lambda>n. authorId n = r) (sc q (tbl_notes d)))))"
    by (simp add: eq take_map comp_def public_scope_def own_scope_def)
  have di: "distinct (map n_id (searchNotes sc (Some r) q d))"
    using dedup_first_distinct [of "[]" "public_scope sc q d @ own_scope sc r q d"]
    by (simp add: eq take_map comp_def flip: take_map)
  have lab: "authorName v =
              (if authorId v = r then ''You''
               else display_name (get_user d (authorId v)) ''Anonymous'')"
    if "v \<in> set (searchNotes sc (Some r) q d)" for v
  proof -
    from that obtain n where "v = with_author n (label r d n)"
      by (auto simp: eq dest!: in_set_takeD)
    then show ?thesis by (simp add: label_def)
  qed
  have chain: "\<forall>v \<in> set (searchNotes sc (Some r) q d).
            authorName v =
              (if authorId v = r then ''You''
               else (case get_user d (authorId v) of
                       None \<Rightarrow> ''Anonymous''
                     | Some a \<Rightarrow>
                         (case name a of
                            Some (x # xs) \<Rightarrow> x # xs
                          | _ \<Rightarrow> (case email a of
                                    Some (y # ys) \<Rightarrow> y # ys
                                  | _ \<Rightarrow> ''Anonymous''))))"
    by (auto simp: lab display_name_def split: option.splits list.splits)
  have iff: "\<forall>v \<in> set (searchNotes sc (Some r) q d).
            authorName v = ''You'' \<longleftrightarrow>
              authorId v = r \<or> display_name (get_user d (authorId v)) ''Anonymous'' = ''You''"
    by (auto simp: lab)
  have "length (searchNotes sc (Some r) q d) \<le> 10" by (simp add: eq)
  with tr di chain iff show ?thesis by blast
qed

theorem searchNotes_merge_witness:
  "trim ''foo'' \<noteq> []
   \<and> map note_doc.truncate (searchNotes newest_first (Some 5) ''foo'' db1)
       = [ghost_note, dan_pub, eve_note, cyd_note, bob_note, pub_note, dan_priv]
   \<and> map authorName (searchNotes newest_first (Some 5) ''foo'' db1)
       = [''Anonymous'', ''You'', ''You'', ''Anonymous'', ''bob@example.org'', ''Ann'', ''You'']
   \<and> length (searchNotes newest_first (Some 5) ''foo'' db1) \<le> 10"
proof -
  note m = searchNotes_merge [OF trim_foo, of newest_first 5 db1]
  from m have len: "length (searchNotes newest_first (Some 5) ''foo'' db1) \<le> 10"
    by (rule conjunct2 [THEN conjunct1])
  from trim_foo len show ?thesis by (simp add: search_db1)
qed

text \<open>
  A label "You" on a note that is not the requester's: the requester is user 5, the third
  result is the public note of user 4, whose name is "You".
\<close>

theorem searchNotes_label_counterexample:
  "trim ''foo'' \<noteq> []
   \<and> authorName (searchNotes newest_first (Some 5) ''foo'' db1 ! 2) = ''You''
   \<and> authorId (searchNotes newest_first (Some 5) ''foo'' db1 ! 2) = 4
   \<and> n_id (searchNotes newest_first (Some 5) ''foo'' db1 ! 2) = 14"
  using trim_foo by (simp add: search_db1 eve_note_def)

text \<open>
  C10. Whatever the text index answers, every note \<open>searchNotes\<close> returns is public or
  authored by the requester; for an anonymous requester every returned note is public.
  A private note that is only shared with the requester is therefore never returned.
\<close>

theorem searchNotes_scope:
  "\<forall>v \<in> set (searchNotes sc auth q d). isPublic v \<or> auth = Some (authorId v)"
proof (cases auth)
  case None
  then show ?thesis
    by (auto simp: searchNotes_anonymous dest: public_scope_public)
next
  case (Some r)
  show ?thesis
  proof (cases "trim q = []")
    case True
    then show ?thesis by (simp add: searchNotes_def)
  next
    case False
    show ?thesis
    proof
      fix v assume "v \<in> set (searchNotes sc auth q d)"
      then obtain n where n: "n \<in> set (dedup_first [] (public_scope sc q d @ own_scope sc r q d))"
        and v: "v = with_author n (label r d n)"
        by (auto simp: Some searchNotes_signed_in [OF False] dest!: in_set_takeD)
      from n set_dedup_first have "n \<in> set (public_scope sc q d) \<or> n \<in> set (own_scope sc r q d)"
        by fastforce
      with v Some show "isPublic v \<or> auth = Some (authorId v)"
        by (auto dest: public_scope_public own_scope_own)
    qed
  qed
qed

theorem searchNotes_scope_witness:
  "holds_write_share db0 10 2 \<and> by_note_and_user db0 11 2 = [read_share]
   \<and> \<not> isPublic priv_note \<and> priv_note \<in> set (newest_first ''foo'' (tbl_notes db0))
   \<and> map n_id (searchNotes newest_first (Some 2) ''foo'' db0) = [12, 10]
   \<and> list_all (\<lambda>v. isPublic v \<or> Some 2 = Some (authorId v))
         (searchNotes newest_first (Some 2) ''foo'' db0)
   \<and> map n_id (searchNotes newest_first None ''foo'' db0) = [12, 10]
   \<and> list_all isPublic (searchNotes newest_first None ''foo'' db0)"
proof -
  have t: "trim ''foo'' \<noteq> []" by (simp add: trim_def is_ws_def)
  have p: "public_scope newest_first ''foo'' db0 = [bob_note, pub_note]"
    by (simp add: public_scope_def ex_defs)
  have o: "own_scope newest_first 2 ''foo'' db0 = [bob_note]"
    by (simp add: own_scope_def ex_defs)
  have ids: "n_id bob_note = 12" "n_id pub_note = 10" by (simp_all add: ex_defs)
  have s: "map n_id (searchNotes newest_first (Some 2) ''foo'' db0) = [12, 10]"
    by (simp add: searchNotes_signed_in [OF t] p o ids)
  have a: "map n_id (searchNotes newest_first None ''foo'' db0) = [12, 10]"
    by (simp add: searchNotes_anonymous t p ids)
  have sh: "holds_write_share db0 10 2" "by_note_and_user db0 11 2 = [read_share]"
    by (simp_all add: holds_write_share_def by_note_and_user_def ex_defs)
  have pr: "\<not> isPublic priv_note" "priv_note \<in> set (newest_first ''foo'' (tbl_notes db0))"
    by (simp_all add: ex_defs)
  from searchNotes_scope [of newest_first "Some 2" "''foo''" db0]
    searchNotes_scope [of newest_first None "''foo''" db0] s a sh pr
  show ?thesis by (simp add: list_all_iff)
qed

end
